theory Spec2Isabelle
  imports Complex_Main "HOL-Library.Word" "HOL-Library.Monad_Syntax"
begin

unbundle bit_operations_syntax

section \<open>The light component (src/framework/components/light/component.js)\<close>

text \<open>
  The component relays property changes to a render light object and attaches or detaches
  its render model from the scene. Its handlers are methods with side effects on three
  collaborators (the render light, the scene, the owning system). The embedding passes
  one state explicitly: the component's stored properties, the render light's two fields
  the handlers touch directly, the scene's model list, and the trace of every call the
  component makes on a collaborator, in order.

  JavaScript numbers are modelled as reals (rounding of doubles is not modelled), enum-like
  numbers as integers, and a mask as a 32-bit word, the domain of JavaScript's bitwise
  operators. A handler that dereferences a missing render light throws; that is the
  result \<open>None\<close>.
\<close>

subsection \<open>Data\<close>

type_synonym color = "real \<times> real \<times> real \<times> real"

text \<open>A render model is an object; only its identity matters here.\<close>

type_synonym model = nat

text \<open>The calls the component makes on the render light, with their argument.\<close>

datatype light_call =
    SetCastShadows bool
  | SetColor color
  | SetIntensity real
  | SetShadowDistance real
  | SetShadowResolution int
  | SetShadowBias real
  | SetNormalOffsetBias real
  | SetAttenuationEnd real
  | SetInnerConeAngle real
  | SetOuterConeAngle real
  | SetFalloffMode int
  | SetShadowType int
  | SetMask "32 word"
  | SetEnabled bool
  | UpdateShadow

text \<open>Every call on a collaborator: the render light, the scene, the owning system, the
  base component.\<close>

datatype event =
    LightCall light_call
  | SceneContainsModel model
  | SceneAddModel model
  | SceneRemoveModel model
  | SystemChangeType string string
  | SuperOnEnable
  | SuperOnDisable

text \<open>The two fields of the render light that the component reads or writes directly
  (\<^verbatim>\<open>this.light.mask\<close>, \<^verbatim>\<open>this.light.shadowUpdateMode\<close>).\<close>

record render_light =
  light_mask :: "32 word"
  light_shadowUpdateMode :: int

text \<open>The constants \<^verbatim>\<open>pc.MASK_DYNAMIC\<close>, \<^verbatim>\<open>pc.MASK_BAKED\<close> and \<^verbatim>\<open>pc.MASK_LIGHTMAP\<close> are
  defined outside this file; they are parameters of the handlers that use them.\<close>

record pc_namespace =
  MASK_DYNAMIC :: "32 word"
  MASK_BAKED :: "32 word"
  MASK_LIGHTMAP :: "32 word"

text \<open>
  The component with what it reaches: its stored properties (\<^verbatim>\<open>this.data\<close>, read through
  accessors such as \<^verbatim>\<open>this.range\<close>), the flags \<^verbatim>\<open>this.lightMap\<close> and \<^verbatim>\<open>this.baked\<close>,
  \<^verbatim>\<open>this.entity.enabled\<close>, the render light \<^verbatim>\<open>this.light\<close> (\<open>None\<close> when missing),
  the model list of \<^verbatim>\<open>this.system.app.scene\<close>, and the trace of collaborator calls.
  The stored mask and shadowUpdateMode are named \<open>mask_prop\<close> and \<open>shadowUpdateMode_prop\<close>,
  apart from the render light's fields; \<open>range\<close> is \<open>range_prop\<close>, \<open>type\<close> is
  \<open>type_prop\<close>.
\<close>

record state =
  type_prop :: string
  castShadows :: bool
  color :: color
  intensity :: real
  shadowDistance :: real
  shadowResolution :: int
  shadowBias :: real
  normalOffsetBias :: real
  range_prop :: real
  innerConeAngle :: real
  outerConeAngle :: real
  falloffMode :: int
  shadowType :: int
  shadowUpdateMode_prop :: int
  mask_prop :: "32 word"
  affectDynamic :: bool
  affectLightmapped :: bool
  bake :: bool
  model :: "model option"
  enabled :: bool
  lightMap :: bool
  baked :: bool
  entity_enabled :: bool
  light :: "render_light option"
  scene :: "model list"
  trace :: "event list"

subsection \<open>Collaborators\<close>

text \<open>A call \<^verbatim>\<open>this.light.setX(v)\<close> of a render-light setter is recorded in the trace with
  its argument. What the setter does inside the render light is outside this file and not
  modelled. On a missing render light the call throws.\<close>

definition call_light :: "light_call \<Rightarrow> state \<Rightarrow> state option" where
  "call_light c s =
     (case light s of
        None \<Rightarrow> None
      | Some l \<Rightarrow> Some (s\<lparr>trace := trace s @ [LightCall c]\<rparr>))"

text \<open>Modelled from the spec: the render light's setMask is outside this file. It is the
  setter of the light's mutable mask field: it stores its argument there, and the call is
  recorded in the trace.\<close>

definition setMask :: "32 word \<Rightarrow> state \<Rightarrow> state option" where
  "setMask v s =
     (case light s of
        None \<Rightarrow> None
      | Some l \<Rightarrow> Some (s\<lparr>light := Some (l\<lparr>light_mask := v\<rparr>),
                          trace := trace s @ [LightCall (SetMask v)]\<rparr>))"

text \<open>Modelled from the spec: the scene object with containsModel, addModel and
  removeModel is outside this file. The scene holds a list of models; containsModel is
  membership, addModel appends, removeModel deletes the model's first occurrence and
  leaves a list without the model as it is. Each call is recorded in the trace.\<close>

definition containsModel :: "model \<Rightarrow> state \<Rightarrow> bool \<times> state" where
  "containsModel m s = (m \<in> set (scene s), s\<lparr>trace := trace s @ [SceneContainsModel m]\<rparr>)"

definition addModel :: "model \<Rightarrow> state \<Rightarrow> state" where
  "addModel m s = s\<lparr>scene := scene s @ [m], trace := trace s @ [SceneAddModel m]\<rparr>"

definition removeModel :: "model \<Rightarrow> state \<Rightarrow> state" where
  "removeModel m s = s\<lparr>scene := remove1 m (scene s), trace := trace s @ [SceneRemoveModel m]\<rparr>"

text \<open>Modelled from the spec: the owning system's changeType is outside this file. It
  swaps the underlying render light object; the new object starts from defaults, given
  here by the parameter \<open>newLight\<close> for each type.\<close>

definition changeType :: "(string \<Rightarrow> render_light) \<Rightarrow> string \<Rightarrow> string \<Rightarrow> state \<Rightarrow> state" where
  "changeType newLight oldValue newValue s =
     s\<lparr>light := Some (newLight newValue),
       trace := trace s @ [SystemChangeType oldValue newValue]\<rparr>"

text \<open>The calls \<^verbatim>\<open>LightComponent._super.onEnable.call(this)\<close> and its onDisable
  counterpart are recorded in the trace; the base component's hooks are outside this
  file.\<close>

definition super_onEnable :: "state \<Rightarrow> state" where
  "super_onEnable s = s\<lparr>trace := trace s @ [SuperOnEnable]\<rparr>"

definition super_onDisable :: "state \<Rightarrow> state" where
  "super_onDisable s = s\<lparr>trace := trace s @ [SuperOnDisable]\<rparr>"

subsection \<open>Handlers that forward unconditionally\<close>

definition onSetCastShadows :: "string \<Rightarrow> bool \<Rightarrow> bool \<Rightarrow> state \<Rightarrow> state option" where
  "onSetCastShadows name oldValue newValue s = call_light (SetCastShadows newValue) s"

definition onSetColor :: "string \<Rightarrow> color \<Rightarrow> color \<Rightarrow> state \<Rightarrow> state option" where
  "onSetColor name oldValue newValue s = call_light (SetColor newValue) s"

definition onSetIntensity :: "string \<Rightarrow> real \<Rightarrow> real \<Rightarrow> state \<Rightarrow> state option" where
  "onSetIntensity name oldValue newValue s = call_light (SetIntensity newValue) s"

definition onSetShadowResolution :: "string \<Rightarrow> int \<Rightarrow> int \<Rightarrow> state \<Rightarrow> state option" where
  "onSetShadowResolution name oldValue newValue s = call_light (SetShadowResolution newValue) s"

text \<open>The value is remapped to the range needed by the shaders. The source multiplies two
  IEEE-754 doubles; the product below is the real product and stands for it, so the value
  is carried in the traces as it is and nothing is stated about its rounding.\<close>

definition onSetShadowBias :: "string \<Rightarrow> real \<Rightarrow> real \<Rightarrow> state \<Rightarrow> state option" where
  "onSetShadowBias name oldValue newValue s = call_light (SetShadowBias (- 0.01 * newValue)) s"

definition onSetNormalOffsetBias :: "string \<Rightarrow> real \<Rightarrow> real \<Rightarrow> state \<Rightarrow> state option" where
  "onSetNormalOffsetBias name oldValue newValue s = call_light (SetNormalOffsetBias newValue) s"

definition onSetShadowType :: "string \<Rightarrow> int \<Rightarrow> int \<Rightarrow> state \<Rightarrow> state option" where
  "onSetShadowType name oldValue newValue s = call_light (SetShadowType newValue) s"

text \<open>\<^verbatim>\<open>this.light.shadowUpdateMode = newValue\<close>: a field write, not a call.\<close>

definition onSetShadowUpdateMode :: "string \<Rightarrow> int \<Rightarrow> int \<Rightarrow> state \<Rightarrow> state option" where
  "onSetShadowUpdateMode name oldValue newValue s =
     (case light s of
        None \<Rightarrow> None
      | Some l \<Rightarrow> Some (s\<lparr>light := Some (l\<lparr>light_shadowUpdateMode := newValue\<rparr>)\<rparr>))"

definition onSetMask :: "string \<Rightarrow> 32 word \<Rightarrow> 32 word \<Rightarrow> state \<Rightarrow> state option" where
  "onSetMask name oldValue newValue s = setMask newValue s"

subsection \<open>Type-gated handlers\<close>

definition onSetShadowDistance :: "string \<Rightarrow> real \<Rightarrow> real \<Rightarrow> state \<Rightarrow> state option" where
  "onSetShadowDistance name oldValue newValue s =
     (if type_prop s \<noteq> ''directional'' then Some s
      else call_light (SetShadowDistance newValue) s)"

definition onSetRange :: "string \<Rightarrow> real \<Rightarrow> real \<Rightarrow> state \<Rightarrow> state option" where
  "onSetRange name oldValue newValue s =
     (if type_prop s \<noteq> ''point'' \<and> type_prop s \<noteq> ''spot'' then Some s
      else call_light (SetAttenuationEnd newValue) s)"

definition onSetInnerConeAngle :: "string \<Rightarrow> real \<Rightarrow> real \<Rightarrow> state \<Rightarrow> state option" where
  "onSetInnerConeAngle name oldValue newValue s =
     (if type_prop s \<noteq> ''spot'' then Some s
      else call_light (SetInnerConeAngle newValue) s)"

definition onSetOuterConeAngle :: "string \<Rightarrow> real \<Rightarrow> real \<Rightarrow> state \<Rightarrow> state option" where
  "onSetOuterConeAngle name oldValue newValue s =
     (if type_prop s \<noteq> ''spot'' then Some s
      else call_light (SetOuterConeAngle newValue) s)"

definition onSetFalloffMode :: "string \<Rightarrow> int \<Rightarrow> int \<Rightarrow> state \<Rightarrow> state option" where
  "onSetFalloffMode name oldValue newValue s =
     (if type_prop s \<noteq> ''point'' \<and> type_prop s \<noteq> ''spot'' then Some s
      else call_light (SetFalloffMode newValue) s)"

subsection \<open>Mask-bit toggles\<close>

text \<open>\<^verbatim>\<open>this.light.mask |= c\<close> and \<^verbatim>\<open>this.light.mask &= ~c\<close> on the render light.\<close>

definition mask_or :: "32 word \<Rightarrow> render_light \<Rightarrow> render_light" where
  "mask_or c l = l\<lparr>light_mask := light_mask l OR c\<rparr>"

definition mask_and_not :: "32 word \<Rightarrow> render_light \<Rightarrow> render_light" where
  "mask_and_not c l = l\<lparr>light_mask := light_mask l AND NOT c\<rparr>"

definition onSetAffectDynamic :: "pc_namespace \<Rightarrow> string \<Rightarrow> bool \<Rightarrow> bool \<Rightarrow> state \<Rightarrow> state option" where
  "onSetAffectDynamic pc name oldValue newValue s =
     (case light s of
        None \<Rightarrow> None
      | Some l \<Rightarrow>
          let l' = (if \<not> oldValue \<and> newValue then mask_or (MASK_DYNAMIC pc) l
                    else if oldValue \<and> \<not> newValue then mask_and_not (MASK_DYNAMIC pc) l
                    else l)
          in setMask (light_mask l') (s\<lparr>light := Some l'\<rparr>))"

definition onSetaffectLightmapped :: "pc_namespace \<Rightarrow> string \<Rightarrow> bool \<Rightarrow> bool \<Rightarrow> state \<Rightarrow> state option" where
  "onSetaffectLightmapped pc name oldValue newValue s =
     (case light s of
        None \<Rightarrow> None
      | Some l \<Rightarrow>
          let l' = (if \<not> oldValue \<and> newValue then
                      (let l1 = mask_or (MASK_BAKED pc) l
                       in if lightMap s then mask_and_not (MASK_LIGHTMAP pc) l1 else l1)
                    else if oldValue \<and> \<not> newValue then
                      (let l1 = mask_and_not (MASK_BAKED pc) l
                       in if lightMap s then mask_or (MASK_LIGHTMAP pc) l1 else l1)
                    else l)
          in setMask (light_mask l') (s\<lparr>light := Some l'\<rparr>))"

definition onSetBake :: "pc_namespace \<Rightarrow> string \<Rightarrow> bool \<Rightarrow> bool \<Rightarrow> state \<Rightarrow> state option" where
  "onSetBake pc name oldValue newValue s =
     (case light s of
        None \<Rightarrow> None
      | Some l \<Rightarrow>
          let l' = (if \<not> oldValue \<and> newValue then
                      (let l1 = mask_or (MASK_LIGHTMAP pc) l
                       in if baked s then mask_and_not (MASK_BAKED pc) l1 else l1)
                    else if oldValue \<and> \<not> newValue then
                      (let l1 = mask_and_not (MASK_LIGHTMAP pc) l
                       in if baked s then mask_or (MASK_BAKED pc) l1 else l1)
                    else l)
          in setMask (light_mask l') (s\<lparr>light := Some l'\<rparr>))"

subsection \<open>Lifecycle\<close>

definition onEnable :: "state \<Rightarrow> state option" where
  "onEnable s0 = do {
     s \<leftarrow> Some (super_onEnable s0);
     s \<leftarrow> call_light (SetEnabled True) s;
     case model s of
       None \<Rightarrow> Some s
     | Some m \<Rightarrow>
         (case containsModel m s of
            (True, s') \<Rightarrow> Some s'
          | (False, s') \<Rightarrow> Some (addModel m s'))
   }"

definition onDisable :: "state \<Rightarrow> state option" where
  "onDisable s0 = do {
     s \<leftarrow> Some (super_onDisable s0);
     s \<leftarrow> call_light (SetEnabled False) s;
     case model s of
       None \<Rightarrow> Some s
     | Some m \<Rightarrow> Some (removeModel m s)
   }"

definition updateShadow :: "state \<Rightarrow> state option" where
  "updateShadow s = call_light UpdateShadow s"

subsection \<open>Type change and refresh\<close>

definition refreshProperties :: "pc_namespace \<Rightarrow> state \<Rightarrow> state option" where
  "refreshProperties pc s0 = do {
     s \<leftarrow> onSetCastShadows ''castShadows'' (castShadows s0) (castShadows s0) s0;
     s \<leftarrow> onSetColor ''color'' (color s) (color s) s;
     s \<leftarrow> onSetIntensity ''intensity'' (intensity s) (intensity s) s;
     s \<leftarrow> onSetShadowDistance ''shadowDistance'' (shadowDistance s) (shadowDistance s) s;
     s \<leftarrow> onSetShadowResolution ''shadowResolution'' (shadowResolution s) (shadowResolution s) s;
     s \<leftarrow> onSetShadowBias ''shadowBias'' (shadowBias s) (shadowBias s) s;
     s \<leftarrow> onSetNormalOffsetBias ''normalOffsetBias'' (normalOffsetBias s) (normalOffsetBias s) s;
     s \<leftarrow> onSetRange ''range'' (range_prop s) (range_prop s) s;
     s \<leftarrow> onSetInnerConeAngle ''innerConeAngle'' (innerConeAngle s) (innerConeAngle s) s;
     s \<leftarrow> onSetOuterConeAngle ''outerConeAngle'' (outerConeAngle s) (outerConeAngle s) s;
     s \<leftarrow> onSetFalloffMode ''falloffMode'' (falloffMode s) (falloffMode s) s;
     s \<leftarrow> onSetShadowType ''shadowType'' (shadowType s) (shadowType s) s;
     s \<leftarrow> onSetShadowUpdateMode ''shadowUpdateMode'' (shadowUpdateMode_prop s) (shadowUpdateMode_prop s) s;
     s \<leftarrow> onSetMask ''mask'' (mask_prop s) (mask_prop s) s;
     s \<leftarrow> onSetAffectDynamic pc ''affectDynamic'' (affectDynamic s) (affectDynamic s) s;
     s \<leftarrow> onSetaffectLightmapped pc ''affectLightmapped'' (affectLightmapped s) (affectLightmapped s) s;
     s \<leftarrow> onSetBake pc ''bake'' (bake s) (bake s) s;
     if enabled s \<and> entity_enabled s then onEnable s else Some s
   }"

definition onSetType ::
  "pc_namespace \<Rightarrow> (string \<Rightarrow> render_light) \<Rightarrow> string \<Rightarrow> string \<Rightarrow> string \<Rightarrow> state \<Rightarrow> state option" where
  "onSetType pc newLight name oldValue newValue s =
     (if oldValue = newValue then Some s
      else refreshProperties pc (changeType newLight oldValue newValue s))"

section \<open>Definitions used to state the properties\<close>

text \<open>A directional light with the documented default property values, an enabled entity,
  a render light whose mask is 1, an empty scene and an empty trace.\<close>

definition demo :: state where
  "demo = \<lparr>type_prop = ''directional'', castShadows = False, color = (1, 1, 1, 1),
     intensity = 1, shadowDistance = 40, shadowResolution = 1024, shadowBias = 0.05,
     normalOffsetBias = 0, range_prop = 10, innerConeAngle = 40, outerConeAngle = 45,
     falloffMode = 0, shadowType = 0, shadowUpdateMode_prop = 0, mask_prop = 1,
     affectDynamic = False, affectLightmapped = False, bake = False, model = None,
     enabled = True, lightMap = False, baked = False, entity_enabled = True,
     light = Some \<lparr>light_mask = 1, light_shadowUpdateMode = 0\<rparr>, scene = [], trace = []\<rparr>"

text \<open>Sample values for the mask constants: three distinct single bits.\<close>

definition pc0 :: pc_namespace where
  "pc0 = \<lparr>MASK_DYNAMIC = 1, MASK_BAKED = 2, MASK_LIGHTMAP = 4\<rparr>"

text \<open>A sample system whose new render lights start with mask 1.\<close>

definition newLight0 :: "string \<Rightarrow> render_light" where
  "newLight0 t = \<lparr>light_mask = 1, light_shadowUpdateMode = 0\<rparr>"

text \<open>The render light's mask, when there is a render light.\<close>

definition the_light_mask :: "state \<Rightarrow> 32 word option" where
  "the_light_mask s = map_option light_mask (light s)"

text \<open>
  \<open>toggled s r setb clr\<close>: the handler returned \<open>r = Some s'\<close> without a fault, and
  \<open>s'\<close> is \<open>s\<close> except that in the render light's mask every bit of \<open>setb\<close> is set,
  every bit of \<open>clr\<close> is cleared and every other bit is as before, and the trace has one
  more call: setMask with the resulting mask.
\<close>

definition toggled :: "state \<Rightarrow> state option \<Rightarrow> 32 word \<Rightarrow> 32 word \<Rightarrow> bool" where
  "toggled s r setb clr =
     (case (light s, r) of
        (Some l, Some s') \<Rightarrow>
          (case light s' of
             None \<Rightarrow> False
           | Some l' \<Rightarrow>
               s' = s\<lparr>light := Some (l\<lparr>light_mask := light_mask l'\<rparr>),
                      trace := trace s @ [LightCall (SetMask (light_mask l'))]\<rparr> \<and>
               light_mask l' AND setb = setb \<and>
               light_mask l' AND clr = 0 \<and>
               light_mask l' AND NOT (setb OR clr) = light_mask l AND NOT (setb OR clr))
      | _ \<Rightarrow> False)"

text \<open>The collaborator calls of onEnable from a state with a render light, and the scene's
  model list afterwards.\<close>

definition enable_events :: "state \<Rightarrow> event list" where
  "enable_events s =
     [SuperOnEnable, LightCall (SetEnabled True)] @
     (case model s of
        None \<Rightarrow> []
      | Some m \<Rightarrow> SceneContainsModel m # (if m \<in> set (scene s) then [] else [SceneAddModel m]))"

definition enable_scene :: "state \<Rightarrow> model list" where
  "enable_scene s =
     (case model s of
        None \<Rightarrow> scene s
      | Some m \<Rightarrow> if m \<in> set (scene s) then scene s else scene s @ [m])"

text \<open>The render light calls that the seventeen handlers make when they are re-invoked with
  the stored values: the type-gated ones only for a matching type, setMask once from
  onSetMask and once from each of the three toggle handlers.\<close>

definition refresh_events :: "state \<Rightarrow> event list" where
  "refresh_events s =
     [LightCall (SetCastShadows (castShadows s)), LightCall (SetColor (color s)),
      LightCall (SetIntensity (intensity s))] @
     (if type_prop s = ''directional''
      then [LightCall (SetShadowDistance (shadowDistance s))] else []) @
     [LightCall (SetShadowResolution (shadowResolution s)),
      LightCall (SetShadowBias (- 0.01 * shadowBias s)),
      LightCall (SetNormalOffsetBias (normalOffsetBias s))] @
     (if type_prop s = ''point'' \<or> type_prop s = ''spot''
      then [LightCall (SetAttenuationEnd (range_prop s))] else []) @
     (if type_prop s = ''spot'' then [LightCall (SetInnerConeAngle (innerConeAngle s))] else []) @
     (if type_prop s = ''spot'' then [LightCall (SetOuterConeAngle (outerConeAngle s))] else []) @
     (if type_prop s = ''point'' \<or> type_prop s = ''spot''
      then [LightCall (SetFalloffMode (falloffMode s))] else []) @
     [LightCall (SetShadowType (shadowType s)),
      LightCall (SetMask (mask_prop s)), LightCall (SetMask (mask_prop s)),
      LightCall (SetMask (mask_prop s)), LightCall (SetMask (mask_prop s))]"

text \<open>Every per-property handler once, in the order of refreshProperties, each with old
  value and new value both equal to the property value stored in the starting state
  \<open>s0\<close>.\<close>

definition reapply_all :: "pc_namespace \<Rightarrow> state \<Rightarrow> state option" where
  "reapply_all pc s0 = do {
     s \<leftarrow> onSetCastShadows ''castShadows'' (castShadows s0) (castShadows s0) s0;
     s \<leftarrow> onSetColor ''color'' (color s0) (color s0) s;
     s \<leftarrow> onSetIntensity ''intensity'' (intensity s0) (intensity s0) s;
     s \<leftarrow> onSetShadowDistance ''shadowDistance'' (shadowDistance s0) (shadowDistance s0) s;
     s \<leftarrow> onSetShadowResolution ''shadowResolution'' (shadowResolution s0) (shadowResolution s0) s;
     s \<leftarrow> onSetShadowBias ''shadowBias'' (shadowBias s0) (shadowBias s0) s;
     s \<leftarrow> onSetNormalOffsetBias ''normalOffsetBias'' (normalOffsetBias s0) (normalOffsetBias s0) s;
     s \<leftarrow> onSetRange ''range'' (range_prop s0) (range_prop s0) s;
     s \<leftarrow> onSetInnerConeAngle ''innerConeAngle'' (innerConeAngle s0) (innerConeAngle s0) s;
     s \<leftarrow> onSetOuterConeAngle ''outerConeAngle'' (outerConeAngle s0) (outerConeAngle s0) s;
     s \<leftarrow> onSetFalloffMode ''falloffMode'' (falloffMode s0) (falloffMode s0) s;
     s \<leftarrow> onSetShadowType ''shadowType'' (shadowType s0) (shadowType s0) s;
     s \<leftarrow> onSetShadowUpdateMode ''shadowUpdateMode'' (shadowUpdateMode_prop s0) (shadowUpdateMode_prop s0) s;
     s \<leftarrow> onSetMask ''mask'' (mask_prop s0) (mask_prop s0) s;
     s \<leftarrow> onSetAffectDynamic pc ''affectDynamic'' (affectDynamic s0) (affectDynamic s0) s;
     s \<leftarrow> onSetaffectLightmapped pc ''affectLightmapped'' (affectLightmapped s0) (affectLightmapped s0) s;
     onSetBake pc ''bake'' (bake s0) (bake s0) s
   }"

text \<open>The calls of the four setters for range, cone angles and falloff mode.\<close>

definition is_point_spot_call :: "event \<Rightarrow> bool" where
  "is_point_spot_call e =
     (case e of
        LightCall (SetAttenuationEnd _) \<Rightarrow> True
      | LightCall (SetInnerConeAngle _) \<Rightarrow> True
      | LightCall (SetOuterConeAngle _) \<Rightarrow> True
      | LightCall (SetFalloffMode _) \<Rightarrow> True
      | _ \<Rightarrow> False)"

section \<open>Auxiliary lemmas\<close>

lemma call_light_Some:
  "light s = Some l \<Longrightarrow> call_light c s = Some (s\<lparr>trace := trace s @ [LightCall c]\<rparr>)"
  by (simp add: call_light_def)

lemma word_set_keeps: "(m OR b) AND b = (b :: 32 word)"
  by (simp add: bit_eq_iff bit_simps)

lemma word_set_clear_keeps: "b AND c = 0 \<Longrightarrow> ((m OR b) AND NOT c) AND b = (b :: 32 word)"
  by (auto simp add: bit_eq_iff bit_simps)

lemma word_clear_set_clears: "b AND c = 0 \<Longrightarrow> ((m AND NOT b) OR c) AND b = (0 :: 32 word)"
  by (auto simp add: bit_eq_iff bit_simps)

lemma word_set_clear_others:
  "((m OR b) AND NOT c) AND NOT (b OR c) = m AND NOT (b OR c)" for m :: "32 word"
  by (auto simp add: bit_eq_iff bit_simps)

lemma word_clear_set_others:
  "((m AND NOT b) OR c) AND NOT (c OR b) = m AND NOT (c OR b)" for m :: "32 word"
  by (auto simp add: bit_eq_iff bit_simps)

lemma word_set_others: "(m OR b) AND NOT b = m AND NOT b" for m :: "32 word"
  by (auto simp add: bit_eq_iff bit_simps)

lemma word_clear_clears: "(m AND NOT b) AND b = 0" for m :: "32 word"
  by (auto simp add: bit_eq_iff bit_simps)

lemma word_clear_set_keeps: "((m AND NOT b) OR c) AND c = (c :: 32 word)"
  by (auto simp add: bit_eq_iff bit_simps)

lemma word_set_clear_clears: "((m OR b) AND NOT c) AND c = (0 :: 32 word)"
  by (auto simp add: bit_eq_iff bit_simps)

lemmas word_toggle_simps = word_set_keeps word_set_clear_keeps word_clear_set_clears
  word_set_clear_others word_clear_set_others word_set_others word_clear_clears
  word_clear_set_keeps word_set_clear_clears

lemma count_list_pos: "m \<in> set xs \<Longrightarrow> 0 < count_list xs m"
  using count_list_0_iff [of xs m] by simp

lemma onEnable_Some:
  "light s \<noteq> None \<Longrightarrow>
   onEnable s = Some (s\<lparr>scene := enable_scene s, trace := trace s @ enable_events s\<rparr>)"
  by (auto simp add: onEnable_def super_onEnable_def call_light_def containsModel_def addModel_def
      enable_scene_def enable_events_def split: option.splits)

lemma onDisable_Some:
  "light s \<noteq> None \<Longrightarrow>
   onDisable s = Some (case model s of
       None \<Rightarrow> s\<lparr>trace := trace s @ [SuperOnDisable, LightCall (SetEnabled False)]\<rparr>
     | Some m \<Rightarrow> s\<lparr>scene := remove1 m (scene s),
           trace := trace s @ [SuperOnDisable, LightCall (SetEnabled False), SceneRemoveModel m]\<rparr>)"
  by (auto simp add: onDisable_def super_onDisable_def call_light_def removeModel_def
      split: option.splits)

lemma forward_eqs:
  assumes "light s \<noteq> None"
  shows "onSetCastShadows n b1 b2 s = Some (s\<lparr>trace := trace s @ [LightCall (SetCastShadows b2)]\<rparr>)"
    and "onSetColor n c1 c2 s = Some (s\<lparr>trace := trace s @ [LightCall (SetColor c2)]\<rparr>)"
    and "onSetIntensity n r1 r2 s = Some (s\<lparr>trace := trace s @ [LightCall (SetIntensity r2)]\<rparr>)"
    and "onSetShadowResolution n i1 i2 s = Some (s\<lparr>trace := trace s @ [LightCall (SetShadowResolution i2)]\<rparr>)"
    and "onSetShadowBias n r1 r2 s = Some (s\<lparr>trace := trace s @ [LightCall (SetShadowBias (- 0.01 * r2))]\<rparr>)"
    and "onSetNormalOffsetBias n r1 r2 s = Some (s\<lparr>trace := trace s @ [LightCall (SetNormalOffsetBias r2)]\<rparr>)"
    and "onSetShadowType n i1 i2 s = Some (s\<lparr>trace := trace s @ [LightCall (SetShadowType i2)]\<rparr>)"
  using assms
  by (auto simp add: onSetCastShadows_def onSetColor_def onSetIntensity_def
      onSetShadowResolution_def onSetShadowBias_def onSetNormalOffsetBias_def
      onSetShadowType_def call_light_def)

lemma gated_eqs:
  assumes "light s \<noteq> None"
  shows "onSetShadowDistance n r1 r2 s = Some (s\<lparr>trace := trace s @
           (if type_prop s = ''directional'' then [LightCall (SetShadowDistance r2)] else [])\<rparr>)"
    and "onSetRange n r1 r2 s = Some (s\<lparr>trace := trace s @
           (if type_prop s = ''point'' \<or> type_prop s = ''spot''
            then [LightCall (SetAttenuationEnd r2)] else [])\<rparr>)"
    and "onSetInnerConeAngle n r1 r2 s = Some (s\<lparr>trace := trace s @
           (if type_prop s = ''spot'' then [LightCall (SetInnerConeAngle r2)] else [])\<rparr>)"
    and "onSetOuterConeAngle n r1 r2 s = Some (s\<lparr>trace := trace s @
           (if type_prop s = ''spot'' then [LightCall (SetOuterConeAngle r2)] else [])\<rparr>)"
    and "onSetFalloffMode n i1 i2 s = Some (s\<lparr>trace := trace s @
           (if type_prop s = ''point'' \<or> type_prop s = ''spot''
            then [LightCall (SetFalloffMode i2)] else [])\<rparr>)"
  using assms
  by (auto simp add: onSetShadowDistance_def onSetRange_def onSetInnerConeAngle_def
      onSetOuterConeAngle_def onSetFalloffMode_def call_light_def)

lemma light_update_same: "light s = Some l \<Longrightarrow> s\<lparr>light := Some l\<rparr> = s"
proof -
  assume a: "light s = Some l"
  have "s\<lparr>light := light s\<rparr> = s" by simp
  with a show ?thesis by simp
qed

lemma toggle_same:
  assumes "light s = Some l"
  shows "onSetAffectDynamic pc n1 b1 b1 s = setMask (light_mask l) s"
    and "onSetaffectLightmapped pc n2 b2 b2 s = setMask (light_mask l) s"
    and "onSetBake pc n3 b3 b3 s = setMask (light_mask l) s"
  using assms
  by (simp_all add: onSetAffectDynamic_def onSetaffectLightmapped_def onSetBake_def
      light_update_same)

lemma setMask_same:
  assumes "light s = Some l"
  shows "setMask (light_mask l) s = Some (s\<lparr>trace := trace s @ [LightCall (SetMask (light_mask l))]\<rparr>)"
proof -
  have "s\<lparr>light := Some l, trace := trace s @ [LightCall (SetMask (light_mask l))]\<rparr> =
        s\<lparr>trace := trace s @ [LightCall (SetMask (light_mask l))]\<rparr>"
    using light_update_same [OF assms] by simp
  then show ?thesis using assms by (simp add: setMask_def)
qed

lemma mask_eqs:
  assumes "light s \<noteq> None"
  shows "onSetShadowUpdateMode n i1 i2 s =
           Some (s\<lparr>light := Some ((the (light s))\<lparr>light_shadowUpdateMode := i2\<rparr>)\<rparr>)"
    and "onSetMask n w1 w2 s =
           Some (s\<lparr>light := Some ((the (light s))\<lparr>light_mask := w2\<rparr>),
                  trace := trace s @ [LightCall (SetMask w2)]\<rparr>)"
    and "onSetAffectDynamic pc n1 b1 b1 s =
           Some (s\<lparr>trace := trace s @ [LightCall (SetMask (light_mask (the (light s))))]\<rparr>)"
    and "onSetaffectLightmapped pc n2 b2 b2 s =
           Some (s\<lparr>trace := trace s @ [LightCall (SetMask (light_mask (the (light s))))]\<rparr>)"
    and "onSetBake pc n3 b3 b3 s =
           Some (s\<lparr>trace := trace s @ [LightCall (SetMask (light_mask (the (light s))))]\<rparr>)"
  using assms
  by (auto simp add: onSetShadowUpdateMode_def onSetMask_def setMask_def toggle_same setMask_same)

lemma reapply_all_Some:
  assumes "light s = Some l"
  shows "reapply_all pc s =
           Some (s\<lparr>light := Some (l\<lparr>light_shadowUpdateMode := shadowUpdateMode_prop s,
                                      light_mask := mask_prop s\<rparr>),
                  trace := trace s @ refresh_events s\<rparr>)"
  using assms
  by (simp add: reapply_all_def forward_eqs gated_eqs mask_eqs refresh_events_def
      split del: if_split)

lemma refresh_chain_Some:
  assumes "light s = Some l"
  shows "refreshProperties pc s =
           (let s' = s\<lparr>light := Some (l\<lparr>light_shadowUpdateMode := shadowUpdateMode_prop s,
                                             light_mask := mask_prop s\<rparr>),
                         trace := trace s @ refresh_events s\<rparr>
            in if enabled s \<and> entity_enabled s then onEnable s' else Some s')"
  using assms
  by (simp add: refreshProperties_def forward_eqs gated_eqs mask_eqs refresh_events_def Let_def
      split del: if_split)

lemma refreshProperties_None: "light s = None \<Longrightarrow> refreshProperties pc s = None"
  by (simp add: refreshProperties_def onSetCastShadows_def call_light_def)

lemma reapply_all_None: "light s = None \<Longrightarrow> reapply_all pc s = None"
  by (simp add: reapply_all_def onSetCastShadows_def call_light_def)

lemma enable_frame:
  "enable_scene (s\<lparr>light := x, trace := t\<rparr>) = enable_scene s"
  "enable_events (s\<lparr>light := x, trace := t\<rparr>) = enable_events s"
  by (simp_all add: enable_scene_def enable_events_def split: option.splits)

lemma refreshProperties_Some:
  assumes "light s = Some l"
  shows "refreshProperties pc s =
           Some (s\<lparr>light := Some (l\<lparr>light_shadowUpdateMode := shadowUpdateMode_prop s,
                                      light_mask := mask_prop s\<rparr>),
                  scene := (if enabled s \<and> entity_enabled s then enable_scene s else scene s),
                  trace := trace s @ refresh_events s @
                    (if enabled s \<and> entity_enabled s then enable_events s else [])\<rparr>)"
  using assms
  by (cases "enabled s"; cases "entity_enabled s";
      simp add: refresh_chain_Some onEnable_Some enable_frame Let_def split del: if_split)

section \<open>The claims\<close>

subsection \<open>Type-gated handlers\<close>

text \<open>
  C1. For every set of a type-gated property, the render light's setter is not called when
  the current type does not match: the handler returns the state as it found it, trace
  included. That is so for shadowDistance when the type is not 'directional', for range and
  falloffMode when it is neither 'point' nor 'spot', and for innerConeAngle and
  outerConeAngle when it is not 'spot'. When the type matches (and there is a render
  light), the handler makes exactly one call, of the corresponding setter with the new
  value unchanged, and changes nothing else.
\<close>

theorem type_gated_handlers:
  "(type_prop s \<noteq> ''directional'' \<longrightarrow> onSetShadowDistance na oa va s = Some s) \<and>
   (type_prop s = ''directional'' \<and> light s = Some l \<longrightarrow>
      onSetShadowDistance na oa va s =
        Some (s\<lparr>trace := trace s @ [LightCall (SetShadowDistance va)]\<rparr>)) \<and>
   (type_prop s \<noteq> ''point'' \<and> type_prop s \<noteq> ''spot'' \<longrightarrow>
      onSetRange nb ob vb s = Some s \<and> onSetFalloffMode nc oc vc s = Some s) \<and>
   ((type_prop s = ''point'' \<or> type_prop s = ''spot'') \<and> light s = Some l \<longrightarrow>
      onSetRange nb ob vb s =
        Some (s\<lparr>trace := trace s @ [LightCall (SetAttenuationEnd vb)]\<rparr>) \<and>
      onSetFalloffMode nc oc vc s =
        Some (s\<lparr>trace := trace s @ [LightCall (SetFalloffMode vc)]\<rparr>)) \<and>
   (type_prop s \<noteq> ''spot'' \<longrightarrow>
      onSetInnerConeAngle nd od vd s = Some s \<and> onSetOuterConeAngle ne oe ve s = Some s) \<and>
   (type_prop s = ''spot'' \<and> light s = Some l \<longrightarrow>
      onSetInnerConeAngle nd od vd s =
        Some (s\<lparr>trace := trace s @ [LightCall (SetInnerConeAngle vd)]\<rparr>) \<and>
      onSetOuterConeAngle ne oe ve s =
        Some (s\<lparr>trace := trace s @ [LightCall (SetOuterConeAngle ve)]\<rparr>))"
  by (auto simp: onSetShadowDistance_def onSetRange_def onSetFalloffMode_def
      onSetInnerConeAngle_def onSetOuterConeAngle_def call_light_Some)

text \<open>The theorem at a directional light and at a spot light.\<close>

theorem type_gated_handlers_witness:
  "onSetShadowDistance ''shadowDistance'' 40 50 demo =
     Some (demo\<lparr>trace := [LightCall (SetShadowDistance 50)]\<rparr>) \<and>
   onSetRange ''range'' 10 20 demo = Some demo \<and>
   onSetFalloffMode ''falloffMode'' 0 1 demo = Some demo \<and>
   onSetInnerConeAngle ''innerConeAngle'' 40 30 demo = Some demo \<and>
   onSetOuterConeAngle ''outerConeAngle'' 45 60 demo = Some demo \<and>
   onSetShadowDistance ''shadowDistance'' 40 50 (demo\<lparr>type_prop := ''spot''\<rparr>) = Some (demo\<lparr>type_prop := ''spot''\<rparr>) \<and>
   onSetRange ''range'' 10 20 (demo\<lparr>type_prop := ''spot''\<rparr>) =
     Some (demo\<lparr>type_prop := ''spot'', trace := [LightCall (SetAttenuationEnd 20)]\<rparr>) \<and>
   onSetFalloffMode ''falloffMode'' 0 1 (demo\<lparr>type_prop := ''spot''\<rparr>) =
     Some (demo\<lparr>type_prop := ''spot'', trace := [LightCall (SetFalloffMode 1)]\<rparr>) \<and>
   onSetInnerConeAngle ''innerConeAngle'' 40 30 (demo\<lparr>type_prop := ''spot''\<rparr>) =
     Some (demo\<lparr>type_prop := ''spot'', trace := [LightCall (SetInnerConeAngle 30)]\<rparr>) \<and>
   onSetOuterConeAngle ''outerConeAngle'' 45 60 (demo\<lparr>type_prop := ''spot''\<rparr>) =
     Some (demo\<lparr>type_prop := ''spot'', trace := [LightCall (SetOuterConeAngle 60)]\<rparr>)"
proof -
  have d: "type_prop demo = ''directional''" "light demo = Some \<lparr>light_mask = 1, light_shadowUpdateMode = 0\<rparr>" "trace demo = []"
    by (simp_all add: demo_def)
  have s: "type_prop (demo\<lparr>type_prop := ''spot''\<rparr>) = ''spot''" "light (demo\<lparr>type_prop := ''spot''\<rparr>) = Some \<lparr>light_mask = 1, light_shadowUpdateMode = 0\<rparr>" "trace (demo\<lparr>type_prop := ''spot''\<rparr>) = []"
    by (simp_all add: demo_def)
  show ?thesis
    by (simp add: d s
        type_gated_handlers [where s = demo and l = "\<lparr>light_mask = 1, light_shadowUpdateMode = 0\<rparr>"]
        type_gated_handlers [where s = "(demo\<lparr>type_prop := ''spot''\<rparr>)" and l = "\<lparr>light_mask = 1, light_shadowUpdateMode = 0\<rparr>"])
qed

subsection \<open>Mask toggles\<close>

text \<open>
  C3. For every prior mask value, provided MASK_BAKED and MASK_LIGHTMAP share no bit:
  toggling affectLightmapped from false to true sets MASK_BAKED in the render light's mask
  and, if the lightMap flag is set, clears MASK_LIGHTMAP; from true to false it clears
  MASK_BAKED and, if lightMap is set, sets MASK_LIGHTMAP. Toggling bake from false to true
  sets MASK_LIGHTMAP and, if the baked flag is set, clears MASK_BAKED; from true to false
  it clears MASK_LIGHTMAP and, if baked is set, sets MASK_BAKED. In every case the
  resulting mask is pushed via setMask and all other mask bits are unchanged.
\<close>

theorem mask_toggles:
  assumes "light s = Some l" and "MASK_BAKED pc AND MASK_LIGHTMAP pc = 0"
  shows "toggled s (onSetaffectLightmapped pc n1 False True s)
           (MASK_BAKED pc) (if lightMap s then MASK_LIGHTMAP pc else 0) \<and>
         toggled s (onSetaffectLightmapped pc n1 True False s)
           (if lightMap s then MASK_LIGHTMAP pc else 0) (MASK_BAKED pc) \<and>
         toggled s (onSetBake pc n2 False True s)
           (MASK_LIGHTMAP pc) (if baked s then MASK_BAKED pc else 0) \<and>
         toggled s (onSetBake pc n2 True False s)
           (if baked s then MASK_BAKED pc else 0) (MASK_LIGHTMAP pc)"
proof -
  from assms(2) have d: "MASK_LIGHTMAP pc AND MASK_BAKED pc = 0"
    by (simp add: and.commute)
  show ?thesis
    using assms d
    apply (simp add: toggled_def onSetaffectLightmapped_def onSetBake_def setMask_def
        mask_or_def mask_and_not_def Let_def word_toggle_simps)
    apply (auto simp add: bit_eq_iff bit_simps)
    done
qed

theorem mask_toggles_witness:
  "light (demo\<lparr>lightMap := True, baked := True\<rparr>) = Some \<lparr>light_mask = 1, light_shadowUpdateMode = 0\<rparr> \<and>
   MASK_BAKED pc0 AND MASK_LIGHTMAP pc0 = 0 \<and>
   toggled (demo\<lparr>lightMap := True, baked := True\<rparr>) (onSetaffectLightmapped pc0 ''affectLightmapped'' False True (demo\<lparr>lightMap := True, baked := True\<rparr>)) 2 4 \<and>
   toggled (demo\<lparr>lightMap := True, baked := True\<rparr>) (onSetaffectLightmapped pc0 ''affectLightmapped'' True False (demo\<lparr>lightMap := True, baked := True\<rparr>)) 4 2 \<and>
   toggled (demo\<lparr>lightMap := True, baked := True\<rparr>) (onSetBake pc0 ''bake'' False True (demo\<lparr>lightMap := True, baked := True\<rparr>)) 4 2 \<and>
   toggled (demo\<lparr>lightMap := True, baked := True\<rparr>) (onSetBake pc0 ''bake'' True False (demo\<lparr>lightMap := True, baked := True\<rparr>)) 2 4"
proof -
  have h: "light (demo\<lparr>lightMap := True, baked := True\<rparr>) = Some \<lparr>light_mask = 1, light_shadowUpdateMode = 0\<rparr>"
    by (simp add: demo_def)
  have d: "MASK_BAKED pc0 AND MASK_LIGHTMAP pc0 = 0"
    by (simp add: pc0_def)
  have f: "lightMap (demo\<lparr>lightMap := True, baked := True\<rparr>)" "baked (demo\<lparr>lightMap := True, baked := True\<rparr>)" "MASK_BAKED pc0 = 2" "MASK_LIGHTMAP pc0 = 4"
    by (simp_all add: demo_def pc0_def)
  from mask_toggles [OF h d, of "''affectLightmapped''" "''bake''"] h d f
  show ?thesis by simp
qed

text \<open>
  C4. Starting from any mask value, with the lightMap and baked flags both true (and
  MASK_BAKED and MASK_LIGHTMAP sharing no bit), enabling bake and then enabling
  affectLightmapped returns without a fault and leaves the render light's mask with
  MASK_LIGHTMAP cleared, MASK_BAKED set and every other bit as it was.
\<close>

theorem bake_then_affectLightmapped:
  assumes "light s = Some l" and "lightMap s" and "baked s"
    and "MASK_BAKED pc AND MASK_LIGHTMAP pc = 0"
  shows "\<exists>s' m'. Option.bind (onSetBake pc n1 False True s)
                    (onSetaffectLightmapped pc n2 False True) = Some s' \<and>
           the_light_mask s' = Some m' \<and>
           m' AND MASK_LIGHTMAP pc = 0 \<and>
           m' AND MASK_BAKED pc = MASK_BAKED pc \<and>
           m' AND NOT (MASK_LIGHTMAP pc OR MASK_BAKED pc) =
             light_mask l AND NOT (MASK_LIGHTMAP pc OR MASK_BAKED pc)"
  using assms
  apply (simp add: the_light_mask_def onSetaffectLightmapped_def onSetBake_def setMask_def
        mask_or_def mask_and_not_def Let_def)
  apply (auto simp add: bit_eq_iff bit_simps)
  done

theorem bake_then_affectLightmapped_witness:
  "light (demo\<lparr>lightMap := True, baked := True\<rparr>) =
     Some \<lparr>light_mask = 1, light_shadowUpdateMode = 0\<rparr> \<and>
   lightMap (demo\<lparr>lightMap := True, baked := True\<rparr>) \<and>
   baked (demo\<lparr>lightMap := True, baked := True\<rparr>) \<and>
   MASK_BAKED pc0 AND MASK_LIGHTMAP pc0 = 0 \<and>
   (\<exists>s' m'. Option.bind (onSetBake pc0 ''bake'' False True (demo\<lparr>lightMap := True, baked := True\<rparr>))
                    (onSetaffectLightmapped pc0 ''affectLightmapped'' False True) = Some s' \<and>
           the_light_mask s' = Some m' \<and>
           m' AND MASK_LIGHTMAP pc0 = 0 \<and>
           m' AND MASK_BAKED pc0 = MASK_BAKED pc0 \<and>
           m' AND NOT (MASK_LIGHTMAP pc0 OR MASK_BAKED pc0) =
             1 AND NOT (MASK_LIGHTMAP pc0 OR MASK_BAKED pc0))"
proof -
  let ?s = "demo\<lparr>lightMap := True, baked := True\<rparr>"
  have h: "light ?s = Some \<lparr>light_mask = 1, light_shadowUpdateMode = 0\<rparr>"
    "lightMap ?s" "baked ?s" "MASK_BAKED pc0 AND MASK_LIGHTMAP pc0 = 0"
    by (simp_all add: demo_def pc0_def)
  from bake_then_affectLightmapped [OF h, of "''bake''" "''affectLightmapped''"]
  have c: "\<exists>s' m'. Option.bind (onSetBake pc0 ''bake'' False True ?s)
                    (onSetaffectLightmapped pc0 ''affectLightmapped'' False True) = Some s' \<and>
           the_light_mask s' = Some m' \<and>
           m' AND MASK_LIGHTMAP pc0 = 0 \<and>
           m' AND MASK_BAKED pc0 = MASK_BAKED pc0 \<and>
           m' AND NOT (MASK_LIGHTMAP pc0 OR MASK_BAKED pc0) =
             1 AND NOT (MASK_LIGHTMAP pc0 OR MASK_BAKED pc0)"
    by simp
  from h c show ?thesis by (intro conjI)
qed

subsection \<open>Enable and disable\<close>

text \<open>
  C5. onEnable always marks the render light enabled: with a render light present it
  returns, and its first calls are the base hook and setEnabled(true). When the component
  owns a model, a second onEnable right after the first finds the model contained and
  does not add it again: its calls are the base hook, setEnabled(true) and containsModel
  only, the scene's list is unchanged, and over both calls addModel is called at most
  once. The scene used here is the list model described with containsModel above.
\<close>

theorem onEnable_twice:
  assumes "light s = Some l"
  shows "\<exists>s1. onEnable s = Some s1 \<and>
           (\<exists>rest. trace s1 = trace s @ SuperOnEnable # LightCall (SetEnabled True) # rest) \<and>
           (\<forall>m. model s = Some m \<longrightarrow>
              (\<exists>s2. onEnable s1 = Some s2 \<and>
                 trace s2 = trace s1 @
                   [SuperOnEnable, LightCall (SetEnabled True), SceneContainsModel m] \<and>
                 scene s2 = scene s1 \<and>
                 scene s1 = (if m \<in> set (scene s) then scene s else scene s @ [m]) \<and>
                 count_list (drop (length (trace s)) (trace s2)) (SceneAddModel m) \<le> 1 \<and>
                 count_list (scene s2) m = max 1 (count_list (scene s) m)))"
proof -
  let ?s1 = "s\<lparr>scene := enable_scene s, trace := trace s @ enable_events s\<rparr>"
  have e1: "onEnable s = Some ?s1"
    using assms by (simp add: onEnable_Some)
  have l1: "light ?s1 = Some l"
    using assms by simp
  have e2: "onEnable ?s1 = Some (?s1\<lparr>scene := enable_scene ?s1, trace := trace ?s1 @ enable_events ?s1\<rparr>)"
    using l1 by (simp add: onEnable_Some)
  have t1: "\<exists>rest. trace ?s1 = trace s @ SuperOnEnable # LightCall (SetEnabled True) # rest"
    by (simp add: enable_events_def)
  have t2: "\<forall>m. model s = Some m \<longrightarrow>
              (\<exists>s2. onEnable ?s1 = Some s2 \<and>
                 trace s2 = trace ?s1 @
                   [SuperOnEnable, LightCall (SetEnabled True), SceneContainsModel m] \<and>
                 scene s2 = scene ?s1 \<and>
                 scene ?s1 = (if m \<in> set (scene s) then scene s else scene s @ [m]) \<and>
                 count_list (drop (length (trace s)) (trace s2)) (SceneAddModel m) \<le> 1 \<and>
                 count_list (scene s2) m = max 1 (count_list (scene s) m))"
    unfolding e2
    by (auto simp add: enable_events_def enable_scene_def count_list_0_iff
        dest: count_list_pos)
  from e1 t1 t2 show ?thesis by blast
qed

theorem onEnable_twice_witness:
  "light (demo\<lparr>model := Some 7\<rparr>) = Some \<lparr>light_mask = 1, light_shadowUpdateMode = 0\<rparr> \<and>
   (\<exists>s1. onEnable (demo\<lparr>model := Some 7\<rparr>) = Some s1 \<and>
      (\<exists>s2. onEnable s1 = Some s2 \<and> scene s1 = [7] \<and> scene s2 = [7] \<and>
         trace s2 = [SuperOnEnable, LightCall (SetEnabled True), SceneContainsModel 7,
                     SceneAddModel 7,
                     SuperOnEnable, LightCall (SetEnabled True), SceneContainsModel 7]))"
proof -
  let ?s = "demo\<lparr>model := Some 7\<rparr>"
  have h: "light ?s = Some \<lparr>light_mask = 1, light_shadowUpdateMode = 0\<rparr>"
    by (simp add: demo_def)
  have m: "model ?s = Some 7" "scene ?s = []" "trace ?s = []"
    by (simp_all add: demo_def)
  from onEnable_twice [OF h] obtain s1 rest where
    a: "onEnable ?s = Some s1"
    and b: "trace s1 = trace ?s @ SuperOnEnable # LightCall (SetEnabled True) # rest"
    and c: "\<forall>m. model ?s = Some m \<longrightarrow>
              (\<exists>s2. onEnable s1 = Some s2 \<and>
                 trace s2 = trace s1 @
                   [SuperOnEnable, LightCall (SetEnabled True), SceneContainsModel m] \<and>
                 scene s2 = scene s1 \<and>
                 scene s1 = (if m \<in> set (scene ?s) then scene ?s else scene ?s @ [m]) \<and>
                 count_list (drop (length (trace ?s)) (trace s2)) (SceneAddModel m) \<le> 1 \<and>
                 count_list (scene s2) m = max 1 (count_list (scene ?s) m))"
    by blast
  from c m obtain s2 where
    d: "onEnable s1 = Some s2"
    and e: "trace s2 = trace s1 @ [SuperOnEnable, LightCall (SetEnabled True), SceneContainsModel 7]"
    and f: "scene s2 = scene s1" "scene s1 = [7]"
    by auto
  have "trace s1 = [SuperOnEnable, LightCall (SetEnabled True), SceneContainsModel 7, SceneAddModel 7]"
    using a h by (auto simp add: onEnable_Some enable_events_def enable_scene_def demo_def)
  with a d e f h show ?thesis by simp
qed

text \<open>
  C6, as stated, says that removing an absent model is a no-op guarded explicitly. The
  handler has no such guard: for a model that exists but is not in the scene's list it
  still calls removeModel, without asking containsModel first (onEnable, by contrast, asks
  before it adds).
\<close>

theorem onDisable_guard_counterexample:
  "model (demo\<lparr>model := Some 7\<rparr>) = Some 7 \<and>
   7 \<notin> set (scene (demo\<lparr>model := Some 7\<rparr>)) \<and>
   map_option trace (onDisable (demo\<lparr>model := Some 7\<rparr>)) =
     Some [SuperOnDisable, LightCall (SetEnabled False), SceneRemoveModel 7]"
  by (simp add: demo_def onDisable_def super_onDisable_def call_light_def removeModel_def)

text \<open>
  C6, amended. With a render light present onDisable returns without a fault and marks the
  render light inactive (setEnabled(false) after the base hook). When the component has
  no model it makes no call on the scene and leaves it unchanged. When it has a model it
  calls removeModel for it unconditionally; what happens to a model that is absent is
  then decided by the scene's removeModel, and with a removeModel that deletes the first
  occurrence the list is unchanged for an absent model and loses one occurrence of a
  present one.
\<close>

theorem onDisable_effect:
  assumes "light s = Some l"
  shows "\<exists>s'. onDisable s = Some s' \<and>
           (model s = None \<longrightarrow>
              s' = s\<lparr>trace := trace s @ [SuperOnDisable, LightCall (SetEnabled False)]\<rparr>) \<and>
           (\<forall>m. model s = Some m \<longrightarrow>
              s' = s\<lparr>scene := remove1 m (scene s),
                     trace := trace s @ [SuperOnDisable, LightCall (SetEnabled False),
                                         SceneRemoveModel m]\<rparr> \<and>
              (m \<notin> set (scene s) \<longrightarrow> scene s' = scene s) \<and>
              (m \<in> set (scene s) \<longrightarrow> count_list (scene s') m + 1 = count_list (scene s) m))"
proof -
  show ?thesis
    using assms by (auto simp add: onDisable_Some remove1_idem dest: count_list_pos)
qed

theorem onDisable_effect_witness:
  "light demo = Some \<lparr>light_mask = 1, light_shadowUpdateMode = 0\<rparr> \<and>
   onDisable demo = Some (demo\<lparr>trace := [SuperOnDisable, LightCall (SetEnabled False)]\<rparr>) \<and>
   onDisable (demo\<lparr>model := Some 7\<rparr>) =
     Some (demo\<lparr>model := Some 7,
       trace := [SuperOnDisable, LightCall (SetEnabled False), SceneRemoveModel 7]\<rparr>) \<and>
   onDisable (demo\<lparr>model := Some 7, scene := [3, 7]\<rparr>) =
     Some (demo\<lparr>model := Some 7, scene := [3],
       trace := [SuperOnDisable, LightCall (SetEnabled False), SceneRemoveModel 7]\<rparr>)"
proof -
  let ?a = "demo\<lparr>model := Some 7\<rparr>"
  let ?p = "demo\<lparr>model := Some 7, scene := [3, 7]\<rparr>"
  have h: "light demo = Some \<lparr>light_mask = 1, light_shadowUpdateMode = 0\<rparr>" "light ?a = Some \<lparr>light_mask = 1, light_shadowUpdateMode = 0\<rparr>" "light ?p = Some \<lparr>light_mask = 1, light_shadowUpdateMode = 0\<rparr>"
    by (simp_all add: demo_def)
  have m: "model demo = None" "model ?a = Some 7" "model ?p = Some 7"
    by (simp_all add: demo_def)
  have a: "onDisable demo = Some (demo\<lparr>trace := trace demo @
             [SuperOnDisable, LightCall (SetEnabled False)]\<rparr>)"
    using onDisable_effect [OF h(1)] m(1) by auto
  have b: "onDisable ?a = Some (?a\<lparr>scene := remove1 7 (scene ?a), trace := trace ?a @
             [SuperOnDisable, LightCall (SetEnabled False), SceneRemoveModel 7]\<rparr>)"
    using onDisable_effect [OF h(2)] m(2) by auto
  have c: "onDisable ?p = Some (?p\<lparr>scene := remove1 7 (scene ?p), trace := trace ?p @
             [SuperOnDisable, LightCall (SetEnabled False), SceneRemoveModel 7]\<rparr>)"
    using onDisable_effect [OF h(3)] m(3) by auto
  show ?thesis
    unfolding a b c by (simp add: demo_def)
qed

subsection \<open>Type change and refresh\<close>

text \<open>
  C7. When the old and the new type are equal, onSetType calls nothing and returns the
  state as it found it. When they differ, it calls the owning system's changeType with
  the old and the new type and then refreshProperties on the result, in that order, and
  it returns: the trace grows by the changeType call followed by the calls of
  refreshProperties.
\<close>

theorem onSetType_order:
  "(oldValue = newValue \<longrightarrow> onSetType pc nl n oldValue newValue s = Some s) \<and>
   (oldValue \<noteq> newValue \<longrightarrow>
      onSetType pc nl n oldValue newValue s =
        refreshProperties pc (changeType nl oldValue newValue s) \<and>
      (\<exists>s'. onSetType pc nl n oldValue newValue s = Some s' \<and>
            trace s' = trace s @ SystemChangeType oldValue newValue # refresh_events s @
              (if enabled s \<and> entity_enabled s then enable_events s else [])))"
proof -
  let ?c = "changeType nl oldValue newValue s"
  have l: "light ?c = Some (nl newValue)"
    by (simp add: changeType_def)
  have e: "refresh_events ?c = refresh_events s" "enable_events ?c = enable_events s"
    "enabled ?c = enabled s" "entity_enabled ?c = entity_enabled s"
    "trace ?c = trace s @ [SystemChangeType oldValue newValue]"
    by (simp_all add: changeType_def refresh_events_def enable_frame)
  have "\<exists>s'. refreshProperties pc ?c = Some s' \<and>
            trace s' = trace s @ SystemChangeType oldValue newValue # refresh_events s @
              (if enabled s \<and> entity_enabled s then enable_events s else [])"
    unfolding refreshProperties_Some [OF l] e by simp
  then show ?thesis
    by (simp add: onSetType_def)
qed
theorem onSetType_order_witness:
  "onSetType pc0 newLight0 ''type'' ''point'' ''point'' demo = Some demo \<and>
   ''directional'' \<noteq> ''spot'' \<and>
   (\<exists>s'. onSetType pc0 newLight0 ''type'' ''directional'' ''spot'' (demo\<lparr>type_prop := ''spot''\<rparr>) = Some s' \<and>
      trace s' =
        [SystemChangeType ''directional'' ''spot'',
         LightCall (SetCastShadows False), LightCall (SetColor (1, 1, 1, 1)),
         LightCall (SetIntensity 1), LightCall (SetShadowResolution 1024),
         LightCall (SetShadowBias (- 0.0005)), LightCall (SetNormalOffsetBias 0),
         LightCall (SetAttenuationEnd 10), LightCall (SetInnerConeAngle 40),
         LightCall (SetOuterConeAngle 45), LightCall (SetFalloffMode 0),
         LightCall (SetShadowType 0),
         LightCall (SetMask 1), LightCall (SetMask 1), LightCall (SetMask 1),
         LightCall (SetMask 1),
         SuperOnEnable, LightCall (SetEnabled True)])"
proof -
  have a: "onSetType pc0 newLight0 ''type'' ''point'' ''point'' demo = Some demo"
    using onSetType_order [where oldValue = "''point''" and newValue = "''point''"
        and pc = pc0 and nl = newLight0 and n = "''type''" and s = demo]
    by simp
  have n: "''directional'' \<noteq> ''spot''"
    by simp
  have e: "trace (demo\<lparr>type_prop := ''spot''\<rparr>) @ SystemChangeType ''directional'' ''spot'' # refresh_events (demo\<lparr>type_prop := ''spot''\<rparr>) @
             (if enabled (demo\<lparr>type_prop := ''spot''\<rparr>) \<and> entity_enabled (demo\<lparr>type_prop := ''spot''\<rparr>) then enable_events (demo\<lparr>type_prop := ''spot''\<rparr>) else []) =
           [SystemChangeType ''directional'' ''spot'',
            LightCall (SetCastShadows False), LightCall (SetColor (1, 1, 1, 1)),
            LightCall (SetIntensity 1), LightCall (SetShadowResolution 1024),
            LightCall (SetShadowBias (- 0.0005)), LightCall (SetNormalOffsetBias 0),
            LightCall (SetAttenuationEnd 10), LightCall (SetInnerConeAngle 40),
            LightCall (SetOuterConeAngle 45), LightCall (SetFalloffMode 0),
            LightCall (SetShadowType 0),
            LightCall (SetMask 1), LightCall (SetMask 1), LightCall (SetMask 1),
            LightCall (SetMask 1),
            SuperOnEnable, LightCall (SetEnabled True)]"
    by (simp add: demo_def refresh_events_def enable_events_def)
  from onSetType_order [where oldValue = "''directional''" and newValue = "''spot''"
      and pc = pc0 and nl = newLight0 and n = "''type''" and s = "(demo\<lparr>type_prop := ''spot''\<rparr>)"] n
  have "\<exists>s'. onSetType pc0 newLight0 ''type'' ''directional'' ''spot'' (demo\<lparr>type_prop := ''spot''\<rparr>) = Some s' \<and>
          trace s' = trace (demo\<lparr>type_prop := ''spot''\<rparr>) @ SystemChangeType ''directional'' ''spot'' #
            refresh_events (demo\<lparr>type_prop := ''spot''\<rparr>) @
            (if enabled (demo\<lparr>type_prop := ''spot''\<rparr>) \<and> entity_enabled (demo\<lparr>type_prop := ''spot''\<rparr>) then enable_events (demo\<lparr>type_prop := ''spot''\<rparr>) else [])"
    by blast
  then have b: "\<exists>s'. onSetType pc0 newLight0 ''type'' ''directional'' ''spot'' (demo\<lparr>type_prop := ''spot''\<rparr>) = Some s' \<and>
      trace s' =
        [SystemChangeType ''directional'' ''spot'',
         LightCall (SetCastShadows False), LightCall (SetColor (1, 1, 1, 1)),
         LightCall (SetIntensity 1), LightCall (SetShadowResolution 1024),
         LightCall (SetShadowBias (- 0.0005)), LightCall (SetNormalOffsetBias 0),
         LightCall (SetAttenuationEnd 10), LightCall (SetInnerConeAngle 40),
         LightCall (SetOuterConeAngle 45), LightCall (SetFalloffMode 0),
         LightCall (SetShadowType 0),
         LightCall (SetMask 1), LightCall (SetMask 1), LightCall (SetMask 1),
         LightCall (SetMask 1),
         SuperOnEnable, LightCall (SetEnabled True)]"
    unfolding e .
  from a n b show ?thesis by (intro conjI)
qed

text \<open>
  C8. refreshProperties invokes every per-property handler (all seventeen handlers other
  than onSetType) exactly once, unconditionally, with old value and new value both equal
  to the property value stored when the refresh starts (\<open>reapply_all\<close>), and after that it invokes onEnable if the component's enabled
  flag and its entity's enabled flag are both true, and does not if either is false.
  With a render light present the re-application returns, leaves both flags as they were
  and makes exactly the render light calls \<open>refresh_events\<close>.
\<close>

theorem refreshProperties_reapplies:
  "refreshProperties pc s =
     Option.bind (reapply_all pc s)
       (\<lambda>s'. if enabled s \<and> entity_enabled s then onEnable s' else Some s') \<and>
   (light s \<noteq> None \<longrightarrow>
      (\<exists>s'. reapply_all pc s = Some s' \<and> trace s' = trace s @ refresh_events s \<and>
            enabled s' = enabled s \<and> entity_enabled s' = entity_enabled s))"
proof (cases "light s")
  case None
  then show ?thesis
    by (simp add: refreshProperties_None reapply_all_None)
next
  case (Some l)
  then show ?thesis
    by (simp add: refresh_chain_Some [OF Some] reapply_all_Some [OF Some] Let_def
        split del: if_split)
qed
theorem refreshProperties_reapplies_witness:
  "light demo \<noteq> None \<and>
   refreshProperties pc0 demo =
     Option.bind (reapply_all pc0 demo)
       (\<lambda>s'. if enabled demo \<and> entity_enabled demo then onEnable s' else Some s') \<and>
   (\<exists>s'. reapply_all pc0 demo = Some s' \<and>
      trace s' =
        [LightCall (SetCastShadows False), LightCall (SetColor (1, 1, 1, 1)),
         LightCall (SetIntensity 1), LightCall (SetShadowDistance 40),
         LightCall (SetShadowResolution 1024),
         LightCall (SetShadowBias (- 0.0005)), LightCall (SetNormalOffsetBias 0),
         LightCall (SetShadowType 0),
         LightCall (SetMask 1), LightCall (SetMask 1), LightCall (SetMask 1),
         LightCall (SetMask 1)])"
proof -
  have h: "light demo \<noteq> None"
    by (simp add: demo_def)
  have e: "trace demo @ refresh_events demo =
        [LightCall (SetCastShadows False), LightCall (SetColor (1, 1, 1, 1)),
         LightCall (SetIntensity 1), LightCall (SetShadowDistance 40),
         LightCall (SetShadowResolution 1024),
         LightCall (SetShadowBias (- 0.0005)), LightCall (SetNormalOffsetBias 0),
         LightCall (SetShadowType 0),
         LightCall (SetMask 1), LightCall (SetMask 1), LightCall (SetMask 1),
         LightCall (SetMask 1)]"
    by (simp add: demo_def refresh_events_def)
  note r = refreshProperties_reapplies [of pc0 demo]
  from r have a: "refreshProperties pc0 demo =
     Option.bind (reapply_all pc0 demo)
       (\<lambda>s'. if enabled demo \<and> entity_enabled demo then onEnable s' else Some s')"
    by (rule conjunct1)
  from r h have "\<exists>s'. reapply_all pc0 demo = Some s' \<and>
      trace s' = trace demo @ refresh_events demo"
    by blast
  then have b: "\<exists>s'. reapply_all pc0 demo = Some s' \<and>
      trace s' =
        [LightCall (SetCastShadows False), LightCall (SetColor (1, 1, 1, 1)),
         LightCall (SetIntensity 1), LightCall (SetShadowDistance 40),
         LightCall (SetShadowResolution 1024),
         LightCall (SetShadowBias (- 0.0005)), LightCall (SetNormalOffsetBias 0),
         LightCall (SetShadowType 0),
         LightCall (SetMask 1), LightCall (SetMask 1), LightCall (SetMask 1),
         LightCall (SetMask 1)]"
    unfolding e .
  from h a b show ?thesis by (intro conjI)
qed

text \<open>
  C9. With the type changed from 'point' to 'spot' (the stored type is 'spot'),
  refreshProperties forwards range (via setAttenuationEnd), innerConeAngle,
  outerConeAngle and falloffMode to the render light exactly once each, with the stored
  values: among the calls the refresh adds to the trace, the calls of these four setters
  are exactly these four. The same holds for the refresh that onSetType itself runs for
  this change: after the changeType call, which installs the new render light, each of
  the four is forwarded exactly once.
\<close>

theorem point_to_spot_refresh:
  assumes "type_prop s = ''spot''"
  shows "(light s \<noteq> None \<longrightarrow>
           (\<exists>s'. refreshProperties pc s = Some s' \<and>
              filter is_point_spot_call (drop (length (trace s)) (trace s')) =
                [LightCall (SetAttenuationEnd (range_prop s)),
                 LightCall (SetInnerConeAngle (innerConeAngle s)),
                 LightCall (SetOuterConeAngle (outerConeAngle s)),
                 LightCall (SetFalloffMode (falloffMode s))])) \<and>
         (\<exists>s'. onSetType pc nl n ''point'' ''spot'' s = Some s' \<and>
              take (length (trace s) + 1) (trace s') =
                trace s @ [SystemChangeType ''point'' ''spot''] \<and>
              filter is_point_spot_call (drop (length (trace s) + 1) (trace s')) =
                [LightCall (SetAttenuationEnd (range_prop s)),
                 LightCall (SetInnerConeAngle (innerConeAngle s)),
                 LightCall (SetOuterConeAngle (outerConeAngle s)),
                 LightCall (SetFalloffMode (falloffMode s))])"
proof -
  have f: "filter is_point_spot_call (refresh_events s @
             (if enabled s \<and> entity_enabled s then enable_events s else [])) =
           [LightCall (SetAttenuationEnd (range_prop s)),
            LightCall (SetInnerConeAngle (innerConeAngle s)),
            LightCall (SetOuterConeAngle (outerConeAngle s)),
            LightCall (SetFalloffMode (falloffMode s))]"
    using assms
    by (simp add: refresh_events_def enable_events_def is_point_spot_call_def
        split: option.splits)
  have a: "light s \<noteq> None \<longrightarrow>
           (\<exists>s'. refreshProperties pc s = Some s' \<and>
              filter is_point_spot_call (drop (length (trace s)) (trace s')) =
                [LightCall (SetAttenuationEnd (range_prop s)),
                 LightCall (SetInnerConeAngle (innerConeAngle s)),
                 LightCall (SetOuterConeAngle (outerConeAngle s)),
                 LightCall (SetFalloffMode (falloffMode s))])"
  proof
    assume "light s \<noteq> None"
    then obtain l where l: "light s = Some l" by auto
    show "\<exists>s'. refreshProperties pc s = Some s' \<and>
              filter is_point_spot_call (drop (length (trace s)) (trace s')) =
                [LightCall (SetAttenuationEnd (range_prop s)),
                 LightCall (SetInnerConeAngle (innerConeAngle s)),
                 LightCall (SetOuterConeAngle (outerConeAngle s)),
                 LightCall (SetFalloffMode (falloffMode s))]"
      unfolding refreshProperties_Some [OF l] using f by simp
  qed
  let ?c = "changeType nl ''point'' ''spot'' s"
  have l: "light ?c = Some (nl ''spot'')"
    by (simp add: changeType_def)
  have e: "refresh_events ?c = refresh_events s" "enable_events ?c = enable_events s"
    "enabled ?c = enabled s" "entity_enabled ?c = entity_enabled s"
    "trace ?c = trace s @ [SystemChangeType ''point'' ''spot'']"
    by (simp_all add: changeType_def refresh_events_def enable_frame)
  have b: "\<exists>s'. onSetType pc nl n ''point'' ''spot'' s = Some s' \<and>
              take (length (trace s) + 1) (trace s') =
                trace s @ [SystemChangeType ''point'' ''spot''] \<and>
              filter is_point_spot_call (drop (length (trace s) + 1) (trace s')) =
                [LightCall (SetAttenuationEnd (range_prop s)),
                 LightCall (SetInnerConeAngle (innerConeAngle s)),
                 LightCall (SetOuterConeAngle (outerConeAngle s)),
                 LightCall (SetFalloffMode (falloffMode s))]"
    unfolding onSetType_def refreshProperties_Some [OF l] e using f by simp
  from a b show ?thesis by (intro conjI)
qed
theorem point_to_spot_refresh_witness:
  "type_prop (demo\<lparr>type_prop := ''spot''\<rparr>) = ''spot'' \<and> light (demo\<lparr>type_prop := ''spot''\<rparr>) \<noteq> None \<and>
   (\<exists>s'. refreshProperties pc0 (demo\<lparr>type_prop := ''spot''\<rparr>) = Some s' \<and>
      filter is_point_spot_call (trace s') =
        [LightCall (SetAttenuationEnd 10), LightCall (SetInnerConeAngle 40),
         LightCall (SetOuterConeAngle 45), LightCall (SetFalloffMode 0)])"
proof -
  have h: "type_prop (demo\<lparr>type_prop := ''spot''\<rparr>) = ''spot''"
    by (simp add: demo_def)
  have l: "light (demo\<lparr>type_prop := ''spot''\<rparr>) \<noteq> None"
    by (simp add: demo_def)
  have v: "trace (demo\<lparr>type_prop := ''spot''\<rparr>) = []" "range_prop (demo\<lparr>type_prop := ''spot''\<rparr>) = 10" "innerConeAngle (demo\<lparr>type_prop := ''spot''\<rparr>) = 40"
    "outerConeAngle (demo\<lparr>type_prop := ''spot''\<rparr>) = 45" "falloffMode (demo\<lparr>type_prop := ''spot''\<rparr>) = 0"
    by (simp_all add: demo_def)
  from point_to_spot_refresh [OF h, of pc0] l
  have "\<exists>s'. refreshProperties pc0 (demo\<lparr>type_prop := ''spot''\<rparr>) = Some s' \<and>
          filter is_point_spot_call (drop (length (trace (demo\<lparr>type_prop := ''spot''\<rparr>))) (trace s')) =
            [LightCall (SetAttenuationEnd (range_prop (demo\<lparr>type_prop := ''spot''\<rparr>))),
             LightCall (SetInnerConeAngle (innerConeAngle (demo\<lparr>type_prop := ''spot''\<rparr>))),
             LightCall (SetOuterConeAngle (outerConeAngle (demo\<lparr>type_prop := ''spot''\<rparr>))),
             LightCall (SetFalloffMode (falloffMode (demo\<lparr>type_prop := ''spot''\<rparr>)))]"
    by blast
  then have c: "\<exists>s'. refreshProperties pc0 (demo\<lparr>type_prop := ''spot''\<rparr>) = Some s' \<and>
      filter is_point_spot_call (trace s') =
        [LightCall (SetAttenuationEnd 10), LightCall (SetInnerConeAngle 40),
         LightCall (SetOuterConeAngle 45), LightCall (SetFalloffMode 0)]"
    unfolding v by simp
  from h l c show ?thesis by (intro conjI)
qed

text \<open>
  C10, as stated, says that a refresh leaves the render light's mask equal to its value
  before the refresh, regardless of which booleans are true. It does not: after
  affectLightmapped is switched on for a light whose mask and stored mask property are
  both 1, the render light's mask is 3; the refresh then forwards the stored mask
  property through onSetMask, so that setMask is called with 1, not with 3, four times,
  and the render light's mask is 1 again.
\<close>

theorem refresh_mask_counterexample:
  "Option.bind (onSetaffectLightmapped pc0 ''affectLightmapped'' False True
      (demo\<lparr>affectLightmapped := True\<rparr>)) the_light_mask = Some 3 \<and>
   Option.bind (Option.bind (onSetaffectLightmapped pc0 ''affectLightmapped'' False True
      (demo\<lparr>affectLightmapped := True\<rparr>)) (refreshProperties pc0)) the_light_mask = Some 1 \<and>
   map_option trace (Option.bind (onSetaffectLightmapped pc0 ''affectLightmapped'' False True
      (demo\<lparr>affectLightmapped := True\<rparr>)) (refreshProperties pc0)) =
     Some [LightCall (SetMask 3),
           LightCall (SetCastShadows False), LightCall (SetColor (1, 1, 1, 1)),
           LightCall (SetIntensity 1), LightCall (SetShadowDistance 40),
           LightCall (SetShadowResolution 1024),
           LightCall (SetShadowBias (- 0.0005)), LightCall (SetNormalOffsetBias 0),
           LightCall (SetShadowType 0),
           LightCall (SetMask 1), LightCall (SetMask 1), LightCall (SetMask 1),
           LightCall (SetMask 1),
           SuperOnEnable, LightCall (SetEnabled True)]"
  by (simp add: demo_def pc0_def onSetaffectLightmapped_def setMask_def mask_or_def
      mask_and_not_def Let_def refreshProperties_def forward_eqs gated_eqs mask_eqs
      onEnable_Some enable_scene_def enable_events_def the_light_mask_def)

text \<open>
  C10, amended. With a render light present, refreshProperties returns and leaves the
  render light's mask equal to the stored mask property, which onSetMask forwards through
  setMask. The three toggle handlers, re-invoked with old value equal to new value, take
  neither branch whatever the booleans are: each only calls setMask with the render
  light's current mask and leaves the mask as it is. So the refresh preserves the render
  light's mask when that mask equals the stored mask property before the refresh.
\<close>

theorem refresh_mask:
  assumes "light s = Some l"
  shows "Option.bind (refreshProperties pc s) the_light_mask = Some (mask_prop s) \<and>
         map_option trace (refreshProperties pc s) =
           Some (trace s @ refresh_events s @
                 (if enabled s \<and> entity_enabled s then enable_events s else [])) \<and>
         (light_mask l = mask_prop s \<longrightarrow>
            Option.bind (refreshProperties pc s) the_light_mask = the_light_mask s) \<and>
         onSetAffectDynamic pc n1 b1 b1 s = setMask (light_mask l) s \<and>
         onSetaffectLightmapped pc n2 b2 b2 s = setMask (light_mask l) s \<and>
         onSetBake pc n3 b3 b3 s = setMask (light_mask l) s \<and>
         setMask (light_mask l) s =
           Some (s\<lparr>trace := trace s @ [LightCall (SetMask (light_mask l))]\<rparr>)"
  using assms
  by (simp add: refreshProperties_Some [OF assms] the_light_mask_def toggle_same [OF assms]
      setMask_same [OF assms] split del: if_split)

theorem refresh_mask_witness:
  "light demo = Some \<lparr>light_mask = 1, light_shadowUpdateMode = 0\<rparr> \<and>
   light_mask \<lparr>light_mask = 1, light_shadowUpdateMode = 0\<rparr> = mask_prop demo \<and>
   Option.bind (refreshProperties pc0 demo) the_light_mask = the_light_mask demo \<and>
   the_light_mask demo = Some 1"
proof -
  have h: "light demo = Some \<lparr>light_mask = 1, light_shadowUpdateMode = 0\<rparr>"
    by (simp add: demo_def)
  have m: "light_mask \<lparr>light_mask = 1, light_shadowUpdateMode = 0\<rparr> = mask_prop demo"
    by (simp add: demo_def)
  have t: "the_light_mask demo = Some 1"
    by (simp add: demo_def the_light_mask_def)
  from refresh_mask [OF h, of pc0] m
  have c: "Option.bind (refreshProperties pc0 demo) the_light_mask = the_light_mask demo"
    by blast
  from h m c t show ?thesis by (intro conjI)
qed

end
